theory Spec2Isabelle
  imports Complex_Main "HOL-Library.Word" "HOL-Library.Log_Nat" "HOL-Library.Code_Target_Nat"
begin

section \<open>Data: bytes, strings, hexadecimal digits\<close>

text \<open>
  A \<^verbatim>\<open>Uint8Array\<close> is a list of 8-bit words. A JavaScript string is a \<^typ>\<open>string\<close>:
  one \<^typ>\<open>char\<close> per code unit, so the embedding covers strings whose code units are
  below 256.
\<close>

type_synonym bytes = "8 word list"

definition hex_val :: "char \<Rightarrow> nat option" where
  \<comment> \<open>the value of a digit of radix 16, in either case; \<open>None\<close> for any other character\<close>
  "hex_val c =
     (let n = (of_char c :: nat)
      in if 48 \<le> n \<and> n \<le> 57 then Some (n - 48)
         else if 97 \<le> n \<and> n \<le> 102 then Some (n - 87)
         else if 65 \<le> n \<and> n \<le> 70 then Some (n - 55)
         else None)"

definition is_hex_digit :: "char \<Rightarrow> bool" where
  \<comment> \<open>the character class \<^verbatim>\<open>[0-9a-fA-F]\<close>\<close>
  "is_hex_digit c = (hex_val c \<noteq> None)"

definition hex_digit :: "nat \<Rightarrow> char" where
  \<comment> \<open>the lowercase digit of a value below 16\<close>
  "hex_digit d = (if d < 10 then char_of (48 + d) else char_of (87 + d))"

definition digit_in :: "nat \<Rightarrow> char \<Rightarrow> bool" where
  \<comment> \<open>a digit of the given radix (at most 16)\<close>
  "digit_in radix c = (case hex_val c of Some d \<Rightarrow> d < radix | None \<Rightarrow> False)"

fun radix_value :: "nat \<Rightarrow> nat \<Rightarrow> string \<Rightarrow> nat" where
  \<comment> \<open>the number a run of digits denotes in a radix, most significant digit first\<close>
  "radix_value radix acc [] = acc"
| "radix_value radix acc (c # cs) =
     radix_value radix (radix * acc + (case hex_val c of Some d \<Rightarrow> d | None \<Rightarrow> 0)) cs"

definition is_ws :: "char \<Rightarrow> bool" where
  \<comment> \<open>\<^verbatim>\<open>StrWhiteSpaceChar\<close> among the code units below 256: TAB, LF, VT, FF, CR, SP, NBSP\<close>
  "is_ws c = ((of_char c :: nat) \<in> set [9, 10, 11, 12, 13, 32, 160])"

definition js_trim :: "string \<Rightarrow> string" where
  \<comment> \<open>\<^verbatim>\<open>s.trim()\<close>\<close>
  "js_trim s = rev (dropWhile is_ws (rev (dropWhile is_ws s)))"

section \<open>Built-ins of the language the source calls\<close>

subsection \<open>\<^verbatim>\<open>parseInt(s, 16)\<close> and the store into a \<^verbatim>\<open>Uint8Array\<close>\<close>

definition parseInt16 :: "string \<Rightarrow> int option" where
  \<comment> \<open>\<^verbatim>\<open>parseInt(s, 16)\<close>: leading white space is skipped, then one sign, then one
      \<^verbatim>\<open>0x\<close> or \<^verbatim>\<open>0X\<close>, then the longest run of digits; \<open>None\<close> is \<^verbatim>\<open>NaN\<close>\<close>
  "parseInt16 s =
     (let S = dropWhile is_ws s;
          sign = (if take 1 S = ''-'' then - 1 else (1 :: int));
          S1 = (if take 1 S = ''-'' \<or> take 1 S = ''+'' then drop 1 S else S);
          S2 = (if take 2 S1 = ''0x'' \<or> take 2 S1 = ''0X'' then drop 2 S1 else S1);
          Z = takeWhile is_hex_digit S2
      in if Z = [] then None else Some (sign * int (radix_value 16 0 Z)))"

definition toUint8 :: "int option \<Rightarrow> 8 word" where
  \<comment> \<open>the value an element of a \<^verbatim>\<open>Uint8Array\<close> holds after a number is stored into it:
      \<^verbatim>\<open>NaN\<close> becomes 0, an integer is taken modulo 256\<close>
  "toUint8 v = (case v of None \<Rightarrow> 0 | Some n \<Rightarrow> word_of_int n)"

subsection \<open>\<^verbatim>\<open>toString(16)\<close> of an integer\<close>

function hex_digits :: "nat \<Rightarrow> string" where
  "hex_digits n = (if n < 16 then [hex_digit n] else hex_digits (n div 16) @ [hex_digit (n mod 16)])"
  by pat_completeness auto
termination
  by (relation "measure id") auto

declare hex_digits.simps [simp del]

definition toString16 :: "int \<Rightarrow> string" where
  \<comment> \<open>\<^verbatim>\<open>x.toString(16)\<close> of a \<^verbatim>\<open>bigint\<close>, or of a \<^verbatim>\<open>number\<close> that holds an integer:
      lowercase digits, no leading zero, \<^verbatim>\<open>-\<close> before a negative value\<close>
  "toString16 x = (if x < 0 then CHR ''-'' # hex_digits (nat (- x)) else hex_digits (nat x))"

subsection \<open>\<^verbatim>\<open>Buffer\<close>: hexadecimal text of bytes, bytes of hexadecimal text\<close>

definition bytes_to_hex :: "bytes \<Rightarrow> string" where
  \<comment> \<open>\<^verbatim>\<open>Buffer.from(b).toString("hex")\<close>: two lowercase digits for each byte\<close>
  "bytes_to_hex b = concat (map (\<lambda>w. [hex_digit (unat w div 16), hex_digit (unat w mod 16)]) b)"

fun buffer_from_hex :: "string \<Rightarrow> bytes" where
  \<comment> \<open>\<^verbatim>\<open>Buffer.from(s, "hex")\<close>: one byte for each pair of digits, ending at the first pair
      that is not two digits; a last single character is dropped\<close>
  "buffer_from_hex (a # b # r) =
     (case (hex_val a, hex_val b) of
        (Some x, Some y) \<Rightarrow> word_of_nat (16 * x + y) # buffer_from_hex r
      | _ \<Rightarrow> [])"
| "buffer_from_hex _ = []"

section \<open>Numbers\<close>

text \<open>
  A \<^verbatim>\<open>number\<close> is a double: not a number, an infinity, or a finite value, held as the
  rational it denotes. The two zeros are one value here: no operation of the wallet tells
  them apart. A \<^verbatim>\<open>bigint\<close> is an \<^typ>\<open>int\<close>.
\<close>

datatype jsnum = NaN | PosInf | NegInf | Fin rat

definition pow2 :: "int \<Rightarrow> rat" where
  "pow2 e = (if 0 \<le> e then 2 ^ nat e else 1 / 2 ^ nat (- e))"

definition floor_log2 :: "rat \<Rightarrow> int" where
  \<comment> \<open>for \<open>0 < x\<close>, the exponent \<open>e\<close> with \<open>2\<^sup>e \<le> x < 2\<^sup>e\<^sup>+\<^sup>1\<close>\<close>
  "floor_log2 x =
     (let k = bitlen (fst (quotient_of x)) - bitlen (snd (quotient_of x))
      in if pow2 k \<le> x then k else k - 1)"

definition round_even :: "rat \<Rightarrow> int" where
  \<comment> \<open>the nearest integer; halfway, the even one\<close>
  "round_even y =
     (let n = \<lfloor>y\<rfloor>; f = y - of_int n
      in if f < 1 / 2 then n else if 1 / 2 < f then n + 1 else if even n then n else n + 1)"

definition round_double :: "rat \<Rightarrow> jsnum" where
  \<comment> \<open>the double nearest to a rational: 53 significant bits, ties to the even significand,
      the least exponent - 1074, and an infinity from \<open>2\<^sup>1\<^sup>0\<^sup>2\<^sup>4\<close> on\<close>
  "round_double x =
     (if x = 0 then Fin 0
      else let a = \<bar>x\<bar>;
               e = max (floor_log2 a - 52) (- 1074);
               m = round_even (a / pow2 e);
               r = of_int m * pow2 e
           in if 2 ^ 1024 \<le> r then (if 0 < x then PosInf else NegInf)
              else Fin (if 0 < x then r else - r))"

fun js_mul :: "jsnum \<Rightarrow> jsnum \<Rightarrow> jsnum" where
  \<comment> \<open>\<^verbatim>\<open>x * y\<close> on numbers\<close>
  "js_mul (Fin a) (Fin b) = round_double (a * b)"
| "js_mul NaN _ = NaN"
| "js_mul _ NaN = NaN"
| "js_mul (Fin a) PosInf = (if a = 0 then NaN else if 0 < a then PosInf else NegInf)"
| "js_mul (Fin a) NegInf = (if a = 0 then NaN else if 0 < a then NegInf else PosInf)"
| "js_mul PosInf (Fin b) = (if b = 0 then NaN else if 0 < b then PosInf else NegInf)"
| "js_mul NegInf (Fin b) = (if b = 0 then NaN else if 0 < b then NegInf else PosInf)"
| "js_mul PosInf PosInf = PosInf"
| "js_mul NegInf NegInf = PosInf"
| "js_mul PosInf NegInf = NegInf"
| "js_mul NegInf PosInf = NegInf"

fun js_add :: "jsnum \<Rightarrow> jsnum \<Rightarrow> jsnum" where
  \<comment> \<open>\<^verbatim>\<open>x + y\<close> on numbers\<close>
  "js_add (Fin a) (Fin b) = round_double (a + b)"
| "js_add NaN _ = NaN"
| "js_add _ NaN = NaN"
| "js_add PosInf NegInf = NaN"
| "js_add NegInf PosInf = NaN"
| "js_add PosInf _ = PosInf"
| "js_add NegInf _ = NegInf"
| "js_add _ PosInf = PosInf"
| "js_add _ NegInf = NegInf"

fun js_floor :: "jsnum \<Rightarrow> jsnum" where
  \<comment> \<open>\<^verbatim>\<open>Math.floor\<close>\<close>
  "js_floor (Fin a) = Fin (of_int \<lfloor>a\<rfloor>)"
| "js_floor x = x"

fun js_isNaN :: "jsnum \<Rightarrow> bool" where
  "js_isNaN NaN = True"
| "js_isNaN _ = False"

fun js_lt0 :: "jsnum \<Rightarrow> bool" where
  \<comment> \<open>\<^verbatim>\<open>x < 0\<close>\<close>
  "js_lt0 (Fin a) = (a < 0)"
| "js_lt0 NegInf = True"
| "js_lt0 _ = False"

fun js_isInteger :: "jsnum \<Rightarrow> bool" where
  \<comment> \<open>\<^verbatim>\<open>Number.isInteger\<close>\<close>
  "js_isInteger (Fin a) = (of_int \<lfloor>a\<rfloor> = a)"
| "js_isInteger _ = False"

definition num_toString16 :: "jsnum \<Rightarrow> string" where
  \<comment> \<open>\<^verbatim>\<open>x.toString(16)\<close> of a number. The digits after the point of a number with a
      fractional part are left to the implementation by the language; no such number
      reaches this function here (lemma \<open>replayV_integer\<close>), and the last case gives the
      digits of the integer part only.\<close>
  "num_toString16 x =
     (case x of
        NaN \<Rightarrow> ''NaN''
      | PosInf \<Rightarrow> ''Infinity''
      | NegInf \<Rightarrow> ''-Infinity''
      | Fin a \<Rightarrow> toString16 \<lfloor>a\<rfloor>)"

subsection \<open>Strings to numbers\<close>

definition pow10 :: "int \<Rightarrow> rat" where
  "pow10 e = (if 0 \<le> e then 10 ^ nat e else 1 / 10 ^ nat (- e))"

definition parse_exponent :: "string \<Rightarrow> int \<times> string" where
  \<comment> \<open>an \<^verbatim>\<open>ExponentPart\<close> at the head of a string, when there is one: its value and the
      rest of the string\<close>
  "parse_exponent r =
     (if take 1 r = ''e'' \<or> take 1 r = ''E'' then
        let r1 = drop 1 r;
            r2 = (if take 1 r1 = ''-'' \<or> take 1 r1 = ''+'' then drop 1 r1 else r1);
            ds = takeWhile (digit_in 10) r2
        in if ds = [] then (0, r)
           else ((if take 1 r1 = ''-'' then - 1 else 1) * int (radix_value 10 0 ds),
                 dropWhile (digit_in 10) r2)
      else (0, r))"

definition parse_StrDecimalLiteral :: "string \<Rightarrow> (jsnum \<times> string) option" where
  \<comment> \<open>the longest prefix of a string that is a \<^verbatim>\<open>StrDecimalLiteral\<close> (a sign, then
      \<^verbatim>\<open>Infinity\<close> or digits with a point and an exponent), as the number it denotes, and
      the rest of the string; \<open>None\<close> when no prefix is one. The number is the double nearest
      to the literal's value.\<close>
  "parse_StrDecimalLiteral s =
     (let neg = (take 1 s = ''-'');
          s1 = (if take 1 s = ''-'' \<or> take 1 s = ''+'' then drop 1 s else s)
      in if take 8 s1 = ''Infinity'' then Some (if neg then NegInf else PosInf, drop 8 s1)
         else
           let ip = takeWhile (digit_in 10) s1;
               r1 = dropWhile (digit_in 10) s1;
               dot = (take 1 r1 = ''.'');
               fp = (if dot then takeWhile (digit_in 10) (drop 1 r1) else []);
               r2 = (if dot then dropWhile (digit_in 10) (drop 1 r1) else r1)
           in if ip = [] \<and> fp = [] then None
              else
                let ex = parse_exponent r2;
                    q = of_nat (radix_value 10 0 (ip @ fp)) * pow10 (fst ex - int (length fp))
                in Some (round_double (if neg then - q else q), snd ex))"

definition NonDecimalIntegerLiteral :: "string \<Rightarrow> nat option" where
  \<comment> \<open>\<^verbatim>\<open>0x\<close>, \<^verbatim>\<open>0o\<close> or \<^verbatim>\<open>0b\<close> (in either case) and one digit or more of that radix, as the
      whole string\<close>
  "NonDecimalIntegerLiteral t =
     (let radix = (if take 2 t = ''0x'' \<or> take 2 t = ''0X'' then 16
                   else if take 2 t = ''0o'' \<or> take 2 t = ''0O'' then 8
                   else if take 2 t = ''0b'' \<or> take 2 t = ''0B'' then 2
                   else 0)
      in if radix \<noteq> 0 \<and> drop 2 t \<noteq> [] \<and> list_all (digit_in radix) (drop 2 t)
         then Some (radix_value radix 0 (drop 2 t)) else None)"

definition StringToNumber :: "string \<Rightarrow> jsnum" where
  \<comment> \<open>\<^verbatim>\<open>Number(s)\<close> of a string\<close>
  "StringToNumber s =
     (let t = js_trim s
      in if t = [] then Fin 0
         else case NonDecimalIntegerLiteral t of
                Some n \<Rightarrow> round_double (of_nat n)
              | None \<Rightarrow>
                  (case parse_StrDecimalLiteral t of
                     Some (v, rest) \<Rightarrow> if rest = [] then v else NaN
                   | None \<Rightarrow> NaN))"

definition parseFloat_string :: "string \<Rightarrow> jsnum" where
  \<comment> \<open>\<^verbatim>\<open>parseFloat(s)\<close> of a string\<close>
  "parseFloat_string s =
     (case parse_StrDecimalLiteral (dropWhile is_ws s) of
        Some (v, rest) \<Rightarrow> v
      | None \<Rightarrow> NaN)"

definition StringToBigInt :: "string \<Rightarrow> int option" where
  \<comment> \<open>the integer a string denotes for \<^verbatim>\<open>BigInt(s)\<close>; \<open>None\<close> when it denotes none\<close>
  "StringToBigInt s =
     (let t = js_trim s
      in if t = [] then Some 0
         else case NonDecimalIntegerLiteral t of
                Some n \<Rightarrow> Some (int n)
              | None \<Rightarrow>
                  (let t1 = (if take 1 t = ''-'' \<or> take 1 t = ''+'' then drop 1 t else t)
                   in if t1 \<noteq> [] \<and> list_all (digit_in 10) t1
                      then Some ((if take 1 t = ''-'' then - 1 else 1) * int (radix_value 10 0 t1))
                      else None))"

section \<open>Values and errors\<close>

text \<open>
  The values the argument parser stores under a key, and an absent key. An exception is
  a value of type \<open>error\<close>; a function that can throw returns \<open>error + 'a\<close>.
\<close>

datatype jsval = JUndefined | JBool bool | JNum jsnum | JStr string

datatype error = Error string | TypeError | RangeError | SyntaxError

fun truthy :: "jsval \<Rightarrow> bool" where
  "truthy JUndefined = False"
| "truthy (JBool b) = b"
| "truthy (JNum x) = (x \<noteq> NaN \<and> x \<noteq> Fin 0)"
| "truthy (JStr s) = (s \<noteq> [])"

definition js_or :: "jsval \<Rightarrow> jsval \<Rightarrow> jsval" where
  \<comment> \<open>\<^verbatim>\<open>a || b\<close>\<close>
  "js_or a b = (if truthy a then a else b)"

fun Number_isInteger :: "jsval \<Rightarrow> bool" where
  \<comment> \<open>\<^verbatim>\<open>Number.isInteger(v)\<close>: false for a value that is no number\<close>
  "Number_isInteger (JNum x) = js_isInteger x"
| "Number_isInteger _ = False"

fun is_number :: "jsval \<Rightarrow> bool" where
  \<comment> \<open>\<^verbatim>\<open>typeof v === "number"\<close>\<close>
  "is_number (JNum x) = True"
| "is_number _ = False"

fun parseFloat :: "jsval \<Rightarrow> jsnum" where
  \<comment> \<open>\<^verbatim>\<open>parseFloat(v)\<close>: \<open>v\<close> is made a string first. The string of a number denotes that
      number again, so \<^verbatim>\<open>parseFloat\<close> of a number is the number.\<close>
  "parseFloat (JStr s) = parseFloat_string s"
| "parseFloat (JNum x) = x"
| "parseFloat (JBool b) = NaN"
| "parseFloat JUndefined = NaN"

fun Number :: "jsval \<Rightarrow> jsnum" where
  \<comment> \<open>\<^verbatim>\<open>Number(v)\<close>\<close>
  "Number (JStr s) = StringToNumber s"
| "Number (JNum x) = x"
| "Number (JBool b) = (if b then Fin 1 else Fin 0)"
| "Number JUndefined = NaN"

fun BigInt :: "jsval \<Rightarrow> error + int" where
  \<comment> \<open>\<^verbatim>\<open>BigInt(v)\<close>: a number must hold an integer, a string must denote one\<close>
  "BigInt (JNum x) =
     (case x of Fin a \<Rightarrow> if of_int \<lfloor>a\<rfloor> = a then Inr \<lfloor>a\<rfloor> else Inl RangeError
      | _ \<Rightarrow> Inl RangeError)"
| "BigInt (JStr s) = (case StringToBigInt s of Some n \<Rightarrow> Inr n | None \<Rightarrow> Inl SyntaxError)"
| "BigInt (JBool b) = Inr (if b then 1 else 0)"
| "BigInt JUndefined = Inl TypeError"

text \<open>
  The library functions the wallet calls are parameters of the embedding: the hash, the
  list serialisation, the key-derivation function, Unicode normalisation, hierarchical
  derivation, the public key of a private key, and whether a value's string is a URL.
\<close>

record prims =
  keccak_256 :: "bytes \<Rightarrow> bytes"
  rlp_encode :: "bytes list \<Rightarrow> bytes"
  pbkdf2Sync :: "string \<Rightarrow> string \<Rightarrow> nat \<Rightarrow> nat \<Rightarrow> string \<Rightarrow> bytes"
  str_normalize :: "string \<Rightarrow> string \<Rightarrow> string"
  hdkey_derive :: "bytes \<Rightarrow> jsval \<Rightarrow> error + (bytes option \<times> bytes option)"
  ecdh_getPublicKey :: "bytes \<Rightarrow> error + bytes"
  url_valid :: "jsval \<Rightarrow> bool"

text \<open>
  Signing is a relation: \<open>S h k out\<close> when \<^verbatim>\<open>secp256k1.ecdsaSign(h, k)\<close> can end in \<open>out\<close>,
  an exception or a signature with its recovery id. A signing scheme that draws
  randomness relates one input to more than one outcome.
\<close>

type_synonym signer = "bytes \<Rightarrow> bytes \<Rightarrow> error + bytes \<times> int \<Rightarrow> bool"

definition deterministic :: "signer \<Rightarrow> bool" where
  "deterministic S = (\<forall>h k out1 out2. S h k out1 \<longrightarrow> S h k out2 \<longrightarrow> out1 = out2)"

section \<open>The wallet's functions\<close>

subsection \<open>\<^verbatim>\<open>hexToUint8Array\<close>\<close>

definition hexToUint8Array :: "string \<Rightarrow> bytes" where
  "hexToUint8Array hex =
     (let clean = (if take 2 hex = ''0x'' then drop 2 hex else hex)
      in if length clean = 0 then []
         else map (\<lambda>i. toUint8 (parseInt16 (take 2 (drop (i * 2) clean))))
                [0 ..< (length clean + 1) div 2])"

subsection \<open>\<^verbatim>\<open>encodeTx\<close>\<close>

definition encodeTx ::
  "int \<Rightarrow> int \<Rightarrow> int \<Rightarrow> string \<Rightarrow> int \<Rightarrow> bytes \<Rightarrow> int \<Rightarrow> bytes list" where
  \<comment> \<open>\<open>nonce\<close> and \<open>chainId\<close> are of type \<^verbatim>\<open>number\<close> in the source: the embedding takes
      the numbers that hold an integer\<close>
  "encodeTx nonce gasPrice gasLimit to val data chainId =
     [ if nonce = 0 then [] else hexToUint8Array (toString16 nonce),
       if gasPrice = 0 then [] else hexToUint8Array (toString16 gasPrice),
       if gasLimit = 0 then [] else hexToUint8Array (toString16 gasLimit),
       hexToUint8Array to,
       if val = 0 then [] else hexToUint8Array (toString16 val),
       data,
       hexToUint8Array (toString16 chainId),
       [],
       [] ]"

subsection \<open>\<^verbatim>\<open>parseValue\<close>\<close>

definition hex_literal_re :: "string \<Rightarrow> bool" where
  \<comment> \<open>\<^verbatim>\<open>/^0x[0-9a-fA-F]+$/.test(v)\<close>\<close>
  "hex_literal_re v = (take 2 v = ''0x'' \<and> drop 2 v \<noteq> [] \<and> list_all is_hex_digit (drop 2 v))"

definition parseValue :: "string \<Rightarrow> jsval" where
  "parseValue v =
     (if v = ''true'' then JBool True
      else if v = ''false'' then JBool False
      else if hex_literal_re v then JStr v
      else if \<not> js_isNaN (StringToNumber v) \<and> js_trim v \<noteq> [] then JNum (StringToNumber v)
      else JStr v)"

subsection \<open>Seed, keys and address\<close>

definition mnemonicToSeedSync :: "prims \<Rightarrow> string \<Rightarrow> string option \<Rightarrow> bytes" where
  \<comment> \<open>the passphrase is optional: \<open>None\<close> is a call without it\<close>
  "mnemonicToSeedSync P mnemonic passphrase =
     (let salt = ''mnemonic'' @ (case passphrase of None \<Rightarrow> [] | Some p \<Rightarrow> p)
      in pbkdf2Sync P (str_normalize P ''NFKD'' mnemonic) (str_normalize P ''NFKD'' salt)
           2048 64 ''sha512'')"

definition derivePath :: "prims \<Rightarrow> jsval \<Rightarrow> bytes \<Rightarrow> error + bytes \<times> bytes" where
  "derivePath P path seed =
     (case hdkey_derive P seed path of
        Inl e \<Rightarrow> Inl e
      | Inr child \<Rightarrow>
          (case child of
             (Some privateKey, Some chainCode) \<Rightarrow> Inr (privateKey, chainCode)
           | _ \<Rightarrow> Inl (Error ''Could not derive child key for given path'')))"

definition getPublicKey :: "prims \<Rightarrow> bytes \<Rightarrow> error + bytes" where
  "getPublicKey P privateKey = ecdh_getPublicKey P privateKey"

definition keccak256 :: "prims \<Rightarrow> bytes \<Rightarrow> bytes" where
  "keccak256 P data = keccak_256 P data"

definition publicKeyToAddress :: "prims \<Rightarrow> bytes \<Rightarrow> error + string" where
  "publicKeyToAddress P pubKey =
     (if length pubKey \<noteq> 65 then Inl (Error ''Invalid public key length'')
      else let pubKeyNoPrefix = drop 1 pubKey;
               hash = keccak256 P pubKeyNoPrefix;
               addressBytes = drop (length hash - 20) hash
           in Inr (''0x'' @ bytes_to_hex addressBytes))"

subsection \<open>\<^verbatim>\<open>isHexAddress\<close>\<close>

definition hex_address_re :: "string \<Rightarrow> bool" where
  \<comment> \<open>\<^verbatim>\<open>/^0x[0-9a-fA-F]{40}$/.test(addr)\<close>\<close>
  "hex_address_re addr =
     (take 2 addr = ''0x'' \<and> length (drop 2 addr) = 40 \<and> list_all is_hex_digit (drop 2 addr))"

definition isHexAddress :: "string \<Rightarrow> bool" where
  "isHexAddress addr =
     (if \<not> hex_address_re addr then False
      else length (buffer_from_hex (drop 2 addr)) = 20)"

fun isHexAddress_val :: "jsval \<Rightarrow> bool" where
  \<comment> \<open>\<^verbatim>\<open>isHexAddress\<close> of any value: the pattern is tested on the value's string, and the
      string of a boolean or of a number never starts with \<^verbatim>\<open>0x\<close>\<close>
  "isHexAddress_val (JStr s) = isHexAddress s"
| "isHexAddress_val _ = False"

subsection \<open>\<^verbatim>\<open>signTransaction\<close>\<close>

definition replayV :: "int \<Rightarrow> int \<Rightarrow> jsnum" where
  \<comment> \<open>\<^verbatim>\<open>chainId * 2 + 35 + recid\<close>, in the arithmetic of numbers\<close>
  "replayV chainId recid =
     js_add (js_add (js_mul (Fin (of_int chainId)) (Fin 2)) (Fin 35)) (Fin (of_int recid))"

definition signed_fields ::
  "int \<Rightarrow> int \<Rightarrow> int \<Rightarrow> string \<Rightarrow> int \<Rightarrow> bytes \<Rightarrow> int \<Rightarrow> bytes \<Rightarrow> int \<Rightarrow> bytes list" where
  \<comment> \<open>the list \<^verbatim>\<open>tx\<close> of step 3, from the signature and the recovery id of step 2\<close>
  "signed_fields nonce gasPrice gasLimit to val data chainId signature recid =
     (let r = take 32 signature;
          s = take 32 (drop 32 signature);
          v = replayV chainId recid
      in [ if nonce = 0 then [] else hexToUint8Array (toString16 nonce),
           if gasPrice = 0 then [] else hexToUint8Array (toString16 gasPrice),
           if gasLimit = 0 then [] else hexToUint8Array (toString16 gasLimit),
           hexToUint8Array to,
           if val = 0 then [] else hexToUint8Array (toString16 val),
           data,
           hexToUint8Array (num_toString16 v),
           r,
           s ])"

definition msgHash ::
  "prims \<Rightarrow> int \<Rightarrow> int \<Rightarrow> int \<Rightarrow> string \<Rightarrow> int \<Rightarrow> bytes \<Rightarrow> int \<Rightarrow> bytes" where
  \<comment> \<open>step 1: the hash of the serialised unsigned list\<close>
  "msgHash P nonce gasPrice gasLimit to val data chainId =
     keccak256 P (rlp_encode P (encodeTx nonce gasPrice gasLimit to val data chainId))"

inductive signTransaction ::
  "prims \<Rightarrow> signer \<Rightarrow> int \<Rightarrow> int \<Rightarrow> int \<Rightarrow> string \<Rightarrow> int \<Rightarrow> bytes \<Rightarrow> int \<Rightarrow> bytes
     \<Rightarrow> error + bytes \<Rightarrow> bool"
  for P S nonce gasPrice gasLimit to val data chainId privateKey
where
  signs:
    "S (msgHash P nonce gasPrice gasLimit to val data chainId) privateKey (Inr (signature, recid))
     \<Longrightarrow> signTransaction P S nonce gasPrice gasLimit to val data chainId privateKey
           (Inr (rlp_encode P
              (signed_fields nonce gasPrice gasLimit to val data chainId signature recid)))"
| sign_throws:
    "S (msgHash P nonce gasPrice gasLimit to val data chainId) privateKey (Inl e)
     \<Longrightarrow> signTransaction P S nonce gasPrice gasLimit to val data chainId privateKey (Inl e)"

section \<open>The wallet script\<close>

definition MNEMONIC :: string where
  "MNEMONIC = ''test test test test test test test test test test test test test junk''"

definition PATH :: string where
  "PATH = ''m/44'' @ [CHR 0x27] @ ''/60'' @ [CHR 0x27] @ ''/0'' @ [CHR 0x27] @ ''/0/0''"

definition lookup :: "(string \<rightharpoonup> jsval) \<Rightarrow> string \<Rightarrow> jsval" where
  \<comment> \<open>\<^verbatim>\<open>argv.key\<close>: the value stored under a key, \<^verbatim>\<open>undefined\<close> when there is none\<close>
  "lookup argv k = (case argv k of Some v \<Rightarrow> v | None \<Rightarrow> JUndefined)"

definition wallet_keys :: "prims \<Rightarrow> (string \<rightharpoonup> jsval) \<Rightarrow> error + bytes \<times> string" where
  \<comment> \<open>the private key and the address of the mnemonic and the path\<close>
  "wallet_keys P argv =
     (let mnemonic = js_or (lookup argv ''mnemonic'') (JStr MNEMONIC);
          path = js_or (lookup argv ''path'') (JStr PATH)
      in case mnemonic of
           JStr m \<Rightarrow>
             (case derivePath P path (mnemonicToSeedSync P m None) of
                Inl e \<Rightarrow> Inl e
              | Inr (privateKey, chainCode) \<Rightarrow>
                  (case getPublicKey P privateKey of
                     Inl e \<Rightarrow> Inl e
                   | Inr publicKey \<Rightarrow>
                       (case publicKeyToAddress P publicKey of
                          Inl e \<Rightarrow> Inl e
                        | Inr address \<Rightarrow> Inr (privateKey, address))))
         | _ \<Rightarrow> Inl TypeError)"

definition wei_value :: "jsval \<Rightarrow> error + int" where
  \<comment> \<open>\<^verbatim>\<open>BigInt(Math.floor(parseFloat(argv.value) * 1e18))\<close>\<close>
  "wei_value v = BigInt (JNum (js_floor (js_mul (parseFloat v) (Fin (10 ^ 18)))))"

definition bigint_or :: "jsval \<Rightarrow> int \<Rightarrow> error + int" where
  \<comment> \<open>\<^verbatim>\<open>v ? BigInt(v) : BigInt(d)\<close>\<close>
  "bigint_or v d = (if truthy v then BigInt v else Inr d)"

datatype outcome =
    Exit nat
  | Throws error
  | CallsSignTransaction jsnum int int jsval int bytes jsnum bytes

definition wallet_main :: "prims \<Rightarrow> (string \<rightharpoonup> jsval) \<Rightarrow> outcome" where
  \<comment> \<open>the script from the parsed arguments up to its call of \<^verbatim>\<open>signTransaction\<close>: the
      process exits with a status, an exception ends it, or it makes the call with these
      arguments. What it prints is left out.\<close>
  "wallet_main P argv =
     (if truthy (lookup argv ''help'') \<or> truthy (lookup argv ''--help'') then Exit 0
      else case wallet_keys P argv of
        Inl e \<Rightarrow> Throws e
      | Inr (privateKey, address) \<Rightarrow>
          if \<not> truthy (lookup argv ''to'') \<or> \<not> truthy (lookup argv ''value'')
             \<or> \<not> is_number (lookup argv ''nonce'') then Exit 1
          else if \<not> isHexAddress_val (lookup argv ''to'') then Exit 1
          else if js_isNaN (parseFloat (lookup argv ''value''))
                  \<or> js_lt0 (parseFloat (lookup argv ''value'')) then Exit 1
          else if \<not> Number_isInteger (lookup argv ''nonce'')
                  \<or> js_lt0 (Number (lookup argv ''nonce'')) then Exit 1
          else if truthy (lookup argv ''rpc'') \<and> \<not> url_valid P (lookup argv ''rpc'') then Exit 1
          else
            (case wei_value (lookup argv ''value'') of
               Inl e \<Rightarrow> Throws e
             | Inr val \<Rightarrow>
                 (case bigint_or (lookup argv ''gasPrice'') 1000000000 of
                    Inl e \<Rightarrow> Throws e
                  | Inr gasPrice \<Rightarrow>
                      (case bigint_or (lookup argv ''gasLimit'') 21000 of
                         Inl e \<Rightarrow> Throws e
                       | Inr gasLimit \<Rightarrow>
                           CallsSignTransaction
                             (Number (lookup argv ''nonce'')) gasPrice gasLimit (lookup argv ''to'')
                             val []
                             (if truthy (lookup argv ''chainId'')
                              then Number (lookup argv ''chainId'') else Fin 1)
                             privateKey))))"

text \<open>
  The script from its call of \<^verbatim>\<open>signTransaction\<close>: the signed bytes \<^verbatim>\<open>raw\<close> and the
  transaction hash \<^verbatim>\<open>keccak256(raw)\<close>, or the exception of the call.
\<close>

inductive sign_and_hash ::
  "prims \<Rightarrow> signer \<Rightarrow> int \<Rightarrow> int \<Rightarrow> int \<Rightarrow> string \<Rightarrow> int \<Rightarrow> bytes \<Rightarrow> int \<Rightarrow> bytes
     \<Rightarrow> error + bytes \<times> bytes \<Rightarrow> bool"
  for P S nonce gasPrice gasLimit to val data chainId privateKey
where
  hashed:
    "signTransaction P S nonce gasPrice gasLimit to val data chainId privateKey (Inr raw)
     \<Longrightarrow> sign_and_hash P S nonce gasPrice gasLimit to val data chainId privateKey
           (Inr (raw, keccak256 P raw))"
| not_signed:
    "signTransaction P S nonce gasPrice gasLimit to val data chainId privateKey (Inl e)
     \<Longrightarrow> sign_and_hash P S nonce gasPrice gasLimit to val data chainId privateKey (Inl e)"

section \<open>Definitions for stating the properties\<close>

text \<open>
  Stand-ins for the library functions and for the signer, at which the theorems are
  instantiated: a hash that pads or cuts its input to 32 bytes, concatenation as
  serialisation, a key-derivation function that returns zero bytes, a derivation and a
  public key that are constant, and a signer with one signature.
\<close>

definition demo_prims :: prims where
  "demo_prims =
     \<lparr> keccak_256 = (\<lambda>b. take 32 (b @ replicate 32 0)),
       rlp_encode = concat,
       pbkdf2Sync = (\<lambda>password salt iterations keylen digest. replicate keylen 0),
       str_normalize = (\<lambda>form s. s),
       hdkey_derive = (\<lambda>seed path. Inr (Some (replicate 32 1), Some (replicate 32 2))),
       ecdh_getPublicKey = (\<lambda>privateKey. Inr (4 # replicate 64 3)),
       url_valid = (\<lambda>v. True) \<rparr>"

definition demo_signer :: signer where
  "demo_signer h k out = (out = Inr (replicate 64 7, 0))"

text \<open>
  Seed derivation in the words of the specification: the key-derivation function on the
  normalised mnemonic as password and the normalised \<^verbatim>\<open>"mnemonic" + passphrase\<close> as salt,
  2048 iterations, SHA-512, 64 bytes.
\<close>

definition deriveSeed_spec :: "prims \<Rightarrow> string \<Rightarrow> string \<Rightarrow> bytes" where
  "deriveSeed_spec P mnemonic passphrase =
     pbkdf2Sync P (str_normalize P ''NFKD'' mnemonic)
       (str_normalize P ''NFKD'' (''mnemonic'' @ passphrase)) 2048 64 ''sha512''"

fun calls_sign :: "outcome \<Rightarrow> bool" where
  \<comment> \<open>the script reached its call of \<^verbatim>\<open>signTransaction\<close>\<close>
  "calls_sign (CallsSignTransaction nonce gasPrice gasLimit to val data chainId privateKey) = True"
| "calls_sign _ = False"

definition demo_argv :: "string \<rightharpoonup> jsval" where
  \<comment> \<open>the arguments \<^verbatim>\<open>--to 0x8ba1...DBA72 --value 0.01 --nonce 0\<close>, parsed\<close>
  "demo_argv =
     [''to'' \<mapsto> parseValue ''0x8ba1f109551bD432803012645Ac136ddd64DBA72'',
      ''value'' \<mapsto> parseValue ''0.01'',
      ''nonce'' \<mapsto> parseValue ''0'']"

text \<open>
  The bytes of an integer in the words of the specification: big-endian, no leading zero
  byte, and no byte at all for zero. \<open>be_value\<close> reads such bytes back.
\<close>

function min_be_bytes :: "nat \<Rightarrow> bytes" where
  "min_be_bytes n = (if n = 0 then [] else min_be_bytes (n div 256) @ [of_nat (n mod 256)])"
  by pat_completeness auto
termination
  by (relation "measure id") auto

declare min_be_bytes.simps [simp del]

definition be_value :: "bytes \<Rightarrow> nat" where
  "be_value b = foldl (\<lambda>acc w. 256 * acc + unat w) 0 b"

text \<open>
  The exact amount of the smallest unit in a decimal amount of whole units: the product
  with \<open>10\<^sup>1\<^sup>8\<close>, truncated toward zero.
\<close>

definition decimal_exact :: "string \<Rightarrow> rat" where
  \<comment> \<open>the rational that digits, a point and digits denote\<close>
  "decimal_exact s =
     (let ip = takeWhile (digit_in 10) s;
          r = dropWhile (digit_in 10) s;
          fp = (if take 1 r = ''.'' then takeWhile (digit_in 10) (drop 1 r) else [])
      in of_nat (radix_value 10 0 (ip @ fp)) / 10 ^ length fp)"

definition wei_exact :: "rat \<Rightarrow> int" where
  "wei_exact x = (if 0 \<le> x then \<lfloor>x * 10 ^ 18\<rfloor> else \<lceil>x * 10 ^ 18\<rceil>)"

text \<open>The loop of \<open>hexToUint8Array\<close> as a recursion over pairs of characters.\<close>

fun pair_bytes :: "string \<Rightarrow> bytes" where
  "pair_bytes (a # b # r) = toUint8 (parseInt16 [a, b]) # pair_bytes r"
| "pair_bytes [a] = [toUint8 (parseInt16 [a])]"
| "pair_bytes [] = []"

section \<open>Hexadecimal text\<close>

lemma hex_val_hex_digit: "d < 16 \<Longrightarrow> hex_val (hex_digit d) = Some d"
  by (auto simp: hex_val_def hex_digit_def Let_def)

lemma is_hex_digit_hex_digit: "d < 16 \<Longrightarrow> is_hex_digit (hex_digit d)"
  by (simp add: is_hex_digit_def hex_val_hex_digit)

lemma length_bytes_to_hex: "length (bytes_to_hex b) = 2 * length b"
  by (induction b) (simp_all add: bytes_to_hex_def)

lemma bytes_to_hex_Cons:
  "bytes_to_hex (w # b) = hex_digit (unat w div 16) # hex_digit (unat w mod 16) # bytes_to_hex b"
  by (simp add: bytes_to_hex_def)

lemma unat_div16: "unat (w :: 8 word) div 16 < 16"
proof -
  have "unat w < 256" using unsigned_less [of w] by simp
  then show ?thesis by simp
qed

lemma all_hex_bytes_to_hex: "list_all is_hex_digit (bytes_to_hex b)"
  by (induction b)
    (simp_all add: bytes_to_hex_Cons is_hex_digit_hex_digit unat_div16 bytes_to_hex_def)

lemma buffer_from_hex_bytes_to_hex: "buffer_from_hex (bytes_to_hex b) = b"
proof (induction b)
  case Nil
  show ?case by (simp add: bytes_to_hex_def)
next
  case (Cons w b)
  have "16 * (unat w div 16) + unat w mod 16 = unat w" by simp
  then have "(word_of_nat (16 * (unat w div 16) + unat w mod 16) :: 8 word) = w" by simp
  with Cons show ?case
    by (simp add: bytes_to_hex_Cons hex_val_hex_digit unat_div16)
qed

section \<open>The bytes of an integer\<close>

text \<open>
  \<open>hexToUint8Array\<close> reads the digits of \<open>toString(16)\<close> in pairs from the left. With an
  even number of digits, or one digit, the bytes are those of the integer. With an odd
  number of digits from three on, the last digit is a byte of its own, and the bytes are
  those of another integer.
\<close>

lemma map_pairs_eq_pair_bytes:
  "map (\<lambda>i. toUint8 (parseInt16 (take 2 (drop (i * 2) s)))) [0 ..< (length s + 1) div 2]
   = pair_bytes s"
proof (induction s rule: pair_bytes.induct)
  case (1 a b r)
  have "[0 ..< (length (a # b # r) + 1) div 2] = 0 # map Suc [0 ..< (length r + 1) div 2]"
    by (simp add: upt_conv_Cons map_Suc_upt del: upt_Suc)
  then show ?case using 1 by (simp add: comp_def del: upt_Suc)
next
  case (2 a)
  show ?case by simp
next
  case 3
  show ?case by simp
qed

lemma hexToUint8Array_pair_bytes:
  "take 2 s \<noteq> ''0x'' \<Longrightarrow> hexToUint8Array s = pair_bytes s"
proof -
  assume "take 2 s \<noteq> ''0x''"
  then have "hexToUint8Array s =
      (if length s = 0 then []
       else map (\<lambda>i. toUint8 (parseInt16 (take 2 (drop (i * 2) s)))) [0 ..< (length s + 1) div 2])"
    by (simp only: hexToUint8Array_def Let_def if_False)
  also have "\<dots> = pair_bytes s"
    using map_pairs_eq_pair_bytes [of s] by (cases "s = []") simp_all
  finally show ?thesis .
qed

lemma pair_bytes_append:
  "even (length xs) \<Longrightarrow> pair_bytes (xs @ ys) = pair_bytes xs @ pair_bytes ys"
  by (induction xs rule: pair_bytes.induct) simp_all

lemma hex_digit_plain:
  assumes "is_hex_digit c"
  shows "\<not> is_ws c" and "c \<noteq> CHR ''-''" and "c \<noteq> CHR ''+''" and "c \<noteq> CHR ''x''"
    and "c \<noteq> CHR ''X''"
  using assms
  by (auto simp: is_hex_digit_def hex_val_def is_ws_def Let_def split: if_splits)

lemma parseInt16_two_digits:
  assumes "hex_val a = Some x" and "hex_val b = Some y"
  shows "toUint8 (parseInt16 [a, b]) = of_nat (16 * x + y)"
proof -
  have a: "is_hex_digit a" and b: "is_hex_digit b"
    using assms by (simp_all add: is_hex_digit_def)
  show ?thesis
    using hex_digit_plain [OF a] hex_digit_plain [OF b] a b assms
    by (simp add: parseInt16_def Let_def toUint8_def)
qed

lemma parseInt16_one_digit:
  assumes "hex_val a = Some x"
  shows "toUint8 (parseInt16 [a]) = of_nat x"
proof -
  have a: "is_hex_digit a"
    using assms by (simp add: is_hex_digit_def)
  show ?thesis
    using hex_digit_plain [OF a] a assms
    by (simp add: parseInt16_def Let_def toUint8_def)
qed

lemma hex_digits_small: "n < 16 \<Longrightarrow> hex_digits n = [hex_digit n]"
  by (simp add: hex_digits.simps)

lemma hex_digits_step: "16 \<le> n \<Longrightarrow> hex_digits n = hex_digits (n div 16) @ [hex_digit (n mod 16)]"
  by (subst hex_digits.simps) simp

lemma hex_digits_two: "16 \<le> n \<Longrightarrow> n < 256 \<Longrightarrow> hex_digits n = [hex_digit (n div 16), hex_digit (n mod 16)]"
  by (simp add: hex_digits_step hex_digits_small)

lemma hex_digits_step2:
  assumes "256 \<le> n"
  shows "hex_digits n = hex_digits (n div 256) @ [hex_digit (n div 16 mod 16), hex_digit (n mod 16)]"
proof -
  have "16 \<le> n div 16" using assms by simp
  moreover have "n div 16 div 16 = n div 256" by (simp add: div_mult2_eq)
  ultimately show ?thesis using assms by (simp add: hex_digits_step [of n] hex_digits_step [of "n div 16"])
qed

lemma all_hex_hex_digits: "list_all is_hex_digit (hex_digits n)"
proof (induction n rule: less_induct)
  case (less n)
  show ?case
  proof (cases "n < 16")
    case True
    then show ?thesis by (simp add: hex_digits_small is_hex_digit_hex_digit)
  next
    case False
    then have "n div 16 < n" by simp
    with less False show ?thesis
      by (simp add: hex_digits_step is_hex_digit_hex_digit)
  qed
qed

lemma hex_digits_no_prefix: "take 2 (hex_digits n) \<noteq> ''0x''"
proof
  assume a: "take 2 (hex_digits n) = ''0x''"
  have "set (take 2 (hex_digits n)) \<subseteq> set (hex_digits n)" by (rule set_take_subset)
  with a have "CHR ''x'' \<in> set (hex_digits n)" by auto
  with all_hex_hex_digits [of n] have "is_hex_digit CHR ''x''"
    by (simp add: list_all_iff)
  then show False by (simp add: is_hex_digit_def hex_val_def)
qed

lemma min_be_bytes_0: "min_be_bytes 0 = []"
  by (simp add: min_be_bytes.simps)

lemma min_be_bytes_step: "0 < n \<Longrightarrow> min_be_bytes n = min_be_bytes (n div 256) @ [of_nat (n mod 256)]"
  by (subst min_be_bytes.simps) simp

lemma mod_256_split: "16 * (n div 16 mod 16) + n mod 16 = n mod (256 :: nat)"
proof -
  have "n mod (16 * 16) = 16 * (n div 16 mod 16) + n mod 16" by (rule mod_mult2_eq)
  then show ?thesis by simp
qed

lemma pair_bytes_even_digits:
  "0 < n \<Longrightarrow> even (length (hex_digits n)) \<Longrightarrow> pair_bytes (hex_digits n) = min_be_bytes n"
proof (induction n rule: less_induct)
  case (less n)
  consider "n < 16" | "16 \<le> n" "n < 256" | "256 \<le> n" by linarith
  then show ?case
  proof cases
    case 1
    with less.prems show ?thesis by (simp add: hex_digits_small)
  next
    case 2
    then have "n div 16 < 16" by simp
    then have "pair_bytes (hex_digits n) = [of_nat (16 * (n div 16) + n mod 16)]"
      using 2 by (simp add: hex_digits_two parseInt16_two_digits hex_val_hex_digit)
    also have "16 * (n div 16) + n mod 16 = n" by simp
    finally show ?thesis using 2 by (simp add: min_be_bytes_step min_be_bytes_0)
  next
    case 3
    then have pos: "0 < n div 256" and lt: "n div 256 < n" by simp_all
    have ds: "hex_digits n =
        hex_digits (n div 256) @ [hex_digit (n div 16 mod 16), hex_digit (n mod 16)]"
      using 3 by (rule hex_digits_step2)
    with less.prems have ev: "even (length (hex_digits (n div 256)))" by simp
    have "pair_bytes (hex_digits n) =
        pair_bytes (hex_digits (n div 256)) @ [of_nat (16 * (n div 16 mod 16) + n mod 16)]"
      by (simp add: ds pair_bytes_append [OF ev] parseInt16_two_digits hex_val_hex_digit)
    also have "\<dots> = min_be_bytes (n div 256) @ [of_nat (n mod 256)]"
      using less.IH [OF lt pos ev] by (simp only: mod_256_split)
    finally show ?thesis using 3 by (simp add: min_be_bytes_step [of n])
  qed
qed

lemma hexToUint8Array_even_digits:
  assumes "0 < n" and "even (length (toString16 n))"
  shows "hexToUint8Array (toString16 n) = min_be_bytes (nat n)"
proof -
  have s: "toString16 n = hex_digits (nat n)" using assms(1) by (simp add: toString16_def)
  with assms have "pair_bytes (hex_digits (nat n)) = min_be_bytes (nat n)"
    by (intro pair_bytes_even_digits) simp_all
  then show ?thesis
    by (simp add: s hexToUint8Array_pair_bytes hex_digits_no_prefix)
qed

lemma hexToUint8Array_one_digit:
  assumes "0 < n" and "n < 16"
  shows "hexToUint8Array (toString16 n) = min_be_bytes (nat n)"
proof -
  have s: "toString16 n = [hex_digit (nat n)]"
    using assms by (simp add: toString16_def hex_digits_small)
  have "hex_val (hex_digit (nat n)) = Some (nat n)"
    using assms by (intro hex_val_hex_digit) simp
  then have "pair_bytes [hex_digit (nat n)] = [of_nat (nat n)]"
    by (simp add: parseInt16_one_digit)
  moreover have "min_be_bytes (nat n) = [of_nat (nat n)]"
    using assms by (simp add: min_be_bytes_step min_be_bytes_0)
  moreover have "take 2 [hex_digit (nat n)] \<noteq> ''0x''" by simp
  ultimately show ?thesis by (simp add: s hexToUint8Array_pair_bytes)
qed

lemma hexToUint8Array_odd_digits:
  assumes "16 \<le> n" and "odd (length (toString16 n))"
  shows "hexToUint8Array (toString16 n) = min_be_bytes (256 * nat (n div 16) + nat (n mod 16))"
proof -
  define k where "k = nat n"
  have k: "16 \<le> k" using assms(1) by (simp add: k_def)
  have s: "toString16 n = hex_digits k" using assms(1) by (simp add: toString16_def k_def)
  have ds: "hex_digits k = hex_digits (k div 16) @ [hex_digit (k mod 16)]"
    using k by (rule hex_digits_step)
  with assms(2) s have ev: "even (length (hex_digits (k div 16)))" by simp
  have pos: "0 < k div 16" using k by simp
  have "pair_bytes (hex_digits k) = pair_bytes (hex_digits (k div 16)) @ [of_nat (k mod 16)]"
    by (simp add: ds pair_bytes_append [OF ev] parseInt16_one_digit hex_val_hex_digit)
  also have "\<dots> = min_be_bytes (k div 16) @ [of_nat (k mod 16)]"
    using pair_bytes_even_digits [OF pos ev] by simp
  also have "\<dots> = min_be_bytes (256 * (k div 16) + k mod 16)"
    using pos by (simp add: min_be_bytes_step [of "256 * (k div 16) + k mod 16"])
  finally have "pair_bytes (hex_digits k) = min_be_bytes (256 * (k div 16) + k mod 16)" .
  moreover have "nat (n div 16) = k div 16" "nat (n mod 16) = k mod 16"
    using assms(1) by (simp_all add: k_def nat_div_distrib nat_mod_distrib)
  ultimately show ?thesis
    by (simp add: s hexToUint8Array_pair_bytes hex_digits_no_prefix)
qed

lemma be_value_snoc: "be_value (b @ [w]) = 256 * be_value b + unat w"
  by (simp add: be_value_def)

lemma be_value_min_be_bytes: "be_value (min_be_bytes n) = n"
proof (induction n rule: less_induct)
  case (less n)
  show ?case
  proof (cases "n = 0")
    case True
    then show ?thesis by (simp add: min_be_bytes_0 be_value_def)
  next
    case False
    then have "n div 256 < n" by simp
    then have "be_value (min_be_bytes (n div 256)) = n div 256" by (rule less.IH)
    moreover have "unat (of_nat (n mod 256) :: 8 word) = n mod 256"
      by (simp add: unat_of_nat)
    ultimately show ?thesis using False
      by (simp add: min_be_bytes_step be_value_snoc)
  qed
qed

lemma hexToUint8Array_odd_digits_wrong:
  assumes "16 \<le> n" and "odd (length (toString16 n))"
  shows "hexToUint8Array (toString16 n) \<noteq> min_be_bytes (nat n)"
proof
  assume "hexToUint8Array (toString16 n) = min_be_bytes (nat n)"
  then have "min_be_bytes (256 * nat (n div 16) + nat (n mod 16)) = min_be_bytes (nat n)"
    using hexToUint8Array_odd_digits [OF assms] by simp
  then have "be_value (min_be_bytes (256 * nat (n div 16) + nat (n mod 16)))
      = be_value (min_be_bytes (nat n))"
    by simp
  then have "256 * nat (n div 16) + nat (n mod 16) = nat n"
    by (simp only: be_value_min_be_bytes)
  moreover have "nat n = 16 * nat (n div 16) + nat (n mod 16)"
    using assms(1) by (simp add: nat_div_distrib nat_mod_distrib)
  moreover have "0 < nat (n div 16)" using assms(1) by simp
  ultimately show False by simp
qed

text \<open>The fields of the example transaction, one at a time.\<close>

lemma bytes_of_nonce_256: "hexToUint8Array (toString16 256) = [16, 0]"
  by code_simp

lemma bytes_of_chainId_0: "hexToUint8Array (toString16 0) = [0]"
  by code_simp

lemma bytes_of_chainId_1: "hexToUint8Array (toString16 1) = [1]"
  by code_simp

lemma bytes_of_gasPrice: "hexToUint8Array (toString16 1000000000) = [59, 154, 202, 0]"
  by code_simp

lemma bytes_of_gasLimit: "hexToUint8Array (toString16 21000) = [82, 8]"
  by code_simp

lemma bytes_of_value: "hexToUint8Array (toString16 10000000000000000) = [35, 134, 242, 111, 193, 0, 0]"
  by code_simp

lemma bytes_of_to:
  "hexToUint8Array ''0x8ba1f109551bD432803012645Ac136ddd64DBA72'' =
     [139, 161, 241, 9, 85, 27, 212, 50, 128, 48, 18, 100, 90, 193, 54, 221, 214, 77, 186, 114]"
  by code_simp

lemma bytes_of_v_309: "hexToUint8Array (toString16 309) = [19, 5]"
  by code_simp

lemma min_be_bytes_256: "min_be_bytes 256 = [1, 0]"
  by code_simp

lemma min_be_bytes_309: "min_be_bytes 309 = [1, 53]"
  by code_simp

lemma min_be_bytes_37: "min_be_bytes 37 = [37]"
  by code_simp

text \<open>
  C1. The encoder is to give each integer field its big-endian bytes without a leading zero
  byte, and no byte for zero. At the nonce 256 it does not: the digits \<^verbatim>\<open>100\<close> are read
  as the bytes \<^verbatim>\<open>10 00\<close>, in the unsigned and in the signed list, where the bytes of 256
  are \<^verbatim>\<open>01 00\<close>. At the chain id 0 the unsigned list holds one zero byte, where the nonce,
  the gas price, the gas limit and the value are tested for zero.
\<close>

theorem encodeTx_nonce_256:
  "encodeTx 256 1000000000 21000 ''0x8ba1f109551bD432803012645Ac136ddd64DBA72''
       10000000000000000 [] 0 ! 0 = [16, 0]
   \<and> signed_fields 256 1000000000 21000 ''0x8ba1f109551bD432803012645Ac136ddd64DBA72''
       10000000000000000 [] 1 (replicate 64 7) 0 ! 0 = [16, 0]
   \<and> min_be_bytes 256 = [1, 0]
   \<and> encodeTx 256 1000000000 21000 ''0x8ba1f109551bD432803012645Ac136ddd64DBA72''
       10000000000000000 [] 0 ! 6 = [0]
   \<and> min_be_bytes 0 = []"
  by (simp add: encodeTx_def signed_fields_def Let_def bytes_of_nonce_256 bytes_of_chainId_0
      min_be_bytes_256 min_be_bytes_0)

section \<open>The address of a public key\<close>

text \<open>
  C5. For a public key of 65 bytes, and a hash of 32 bytes, \<open>publicKeyToAddress\<close> hashes
  the 64 bytes after the prefix byte and returns \<^verbatim>\<open>0x\<close> and the hexadecimal text of the
  last 20 bytes of the hash: the text matches \<^verbatim>\<open>^0x[0-9a-fA-F]{40}$\<close>, and decoding it gives
  those 20 bytes back.
\<close>

theorem publicKeyToAddress_valid:
  assumes "length pubKey = 65" and "length (keccak_256 P (drop 1 pubKey)) = 32"
  shows "length (drop 1 pubKey) = 64
    \<and> length (drop 12 (keccak_256 P (drop 1 pubKey))) = 20
    \<and> publicKeyToAddress P pubKey =
        Inr (''0x'' @ bytes_to_hex (drop 12 (keccak_256 P (drop 1 pubKey))))
    \<and> (\<exists>addr. publicKeyToAddress P pubKey = Inr addr \<and> hex_address_re addr
          \<and> buffer_from_hex (drop 2 addr) = drop 12 (keccak_256 P (drop 1 pubKey)))"
  using assms
  by (simp add: publicKeyToAddress_def keccak256_def Let_def hex_address_re_def
      length_bytes_to_hex all_hex_bytes_to_hex buffer_from_hex_bytes_to_hex)

theorem publicKeyToAddress_valid_witness:
  "length (4 # replicate 64 (3 :: 8 word)) = 65
   \<and> length (keccak_256 demo_prims (drop 1 (4 # replicate 64 3))) = 32
   \<and> publicKeyToAddress demo_prims (4 # replicate 64 3) =
       Inr (''0x'' @ bytes_to_hex (replicate 20 3))"
proof -
  have h1: "length (4 # replicate 64 (3 :: 8 word)) = 65" by simp
  have h2: "length (keccak_256 demo_prims (drop 1 (4 # replicate 64 3))) = 32"
    by (simp add: demo_prims_def)
  have "drop 12 (keccak_256 demo_prims (drop 1 (4 # replicate 64 3))) = replicate 20 3"
    by (simp add: demo_prims_def)
  with publicKeyToAddress_valid [OF h1 h2] h1 h2 show ?thesis by simp
qed

text \<open>
  C6. For a public key whose length is not 65 bytes, \<open>publicKeyToAddress\<close> throws the error
  \<^verbatim>\<open>Invalid public key length\<close>: it returns no address.
\<close>

theorem publicKeyToAddress_invalid_length:
  "length pubKey \<noteq> 65 \<Longrightarrow>
   publicKeyToAddress P pubKey = Inl (Error ''Invalid public key length'')"
  by (simp add: publicKeyToAddress_def)

theorem publicKeyToAddress_invalid_length_witness:
  "length (replicate 64 (3 :: 8 word)) \<noteq> 65
   \<and> publicKeyToAddress demo_prims (replicate 64 3) = Inl (Error ''Invalid public key length'')"
  using publicKeyToAddress_invalid_length [of "replicate 64 3" demo_prims] by simp

section \<open>Values of arguments\<close>

text \<open>
  C10. An argument that matches \<^verbatim>\<open>^0x[0-9a-fA-F]+$\<close> is returned by \<open>parseValue\<close> as the same
  string: it becomes neither a number nor a boolean.
\<close>

theorem parseValue_hex_literal: "hex_literal_re v \<Longrightarrow> parseValue v = JStr v"
  by (auto simp: parseValue_def hex_literal_re_def)

theorem parseValue_hex_literal_witness:
  "hex_literal_re ''0x8ba1f109551bD432803012645Ac136ddd64DBA72''
   \<and> parseValue ''0x8ba1f109551bD432803012645Ac136ddd64DBA72'' =
       JStr ''0x8ba1f109551bD432803012645Ac136ddd64DBA72''"
proof -
  have h: "hex_literal_re ''0x8ba1f109551bD432803012645Ac136ddd64DBA72''"
    by (simp add: hex_literal_re_def is_hex_digit_def hex_val_def)
  from parseValue_hex_literal [OF h] h show ?thesis by simp
qed

section \<open>The seed of a mnemonic\<close>

text \<open>
  C4. \<open>mnemonicToSeedSync\<close> returns what the key-derivation function returns for the
  normalised mnemonic as password, the normalised \<^verbatim>\<open>"mnemonic" + passphrase\<close> as salt, 2048
  iterations, 64 bytes and SHA-512; without a passphrase and with the empty passphrase the
  salt is the normalised \<^verbatim>\<open>"mnemonic"\<close>, and a value is returned. Where the key-derivation
  function returns the 64 bytes it is asked for, the seed has 64 bytes.
\<close>

theorem mnemonicToSeedSync_spec:
  assumes "\<And>password salt. length (pbkdf2Sync P password salt 2048 64 ''sha512'') = 64"
  shows "mnemonicToSeedSync P mnemonic (Some passphrase) = deriveSeed_spec P mnemonic passphrase
    \<and> mnemonicToSeedSync P mnemonic None = deriveSeed_spec P mnemonic []
    \<and> mnemonicToSeedSync P mnemonic (Some []) = deriveSeed_spec P mnemonic []
    \<and> length (mnemonicToSeedSync P mnemonic (Some passphrase)) = 64
    \<and> length (mnemonicToSeedSync P mnemonic None) = 64"
  using assms by (simp add: mnemonicToSeedSync_def deriveSeed_spec_def)

theorem mnemonicToSeedSync_spec_witness:
  "(\<forall>password salt. length (pbkdf2Sync demo_prims password salt 2048 64 ''sha512'') = 64)
   \<and> mnemonicToSeedSync demo_prims MNEMONIC None = replicate 64 0
   \<and> mnemonicToSeedSync demo_prims MNEMONIC (Some []) = deriveSeed_spec demo_prims MNEMONIC []"
proof -
  have h: "\<And>password salt. length (pbkdf2Sync demo_prims password salt 2048 64 ''sha512'') = 64"
    by (simp add: demo_prims_def)
  have "deriveSeed_spec demo_prims MNEMONIC [] = replicate 64 0"
    by (simp add: deriveSeed_spec_def demo_prims_def)
  with mnemonicToSeedSync_spec [OF h, of MNEMONIC "[]"] h show ?thesis by simp
qed


section \<open>Rounding to a double\<close>

lemma pow2_pos: "0 < pow2 e"
  by (simp add: pow2_def)

lemma pow2_nonneg: "0 \<le> e \<Longrightarrow> pow2 e = of_int (2 ^ nat e)"
  by (simp add: pow2_def)

lemma div_pow2_nonpos: "e \<le> 0 \<Longrightarrow> x / pow2 e = x * of_int (2 ^ nat (- e))"
  by (cases "e = 0") (simp_all add: pow2_def)

lemma mult_pow2_nonpos: "e \<le> 0 \<Longrightarrow> x * of_int (2 ^ nat (- e)) * pow2 e = x"
  by (cases "e = 0") (simp_all add: pow2_def)

lemma round_even_of_int: "round_even (of_int n) = n"
  by (simp add: round_even_def)

lemma overflow_iff:
  assumes "0 < m"
  shows "(2 ^ 1024 \<le> of_int m * pow2 e) = (1024 < bitlen m + e)"
proof -
  have b: "(1024 < bitlen m + e) = (1025 - e \<le> 0 \<or> 2 ^ (nat (1025 - e) - 1) \<le> m)"
    using bitlen_ge_iff_power [of "1025 - e" m] by auto
  show ?thesis
  proof (cases "1025 \<le> e")
    case True
    then have "(2 :: rat) ^ 1025 \<le> 2 ^ nat e"
      by (intro power_increasing) auto
    moreover have "(1 :: rat) \<le> of_int m" using assms by simp
    ultimately have "(2 :: rat) ^ 1025 * 1 \<le> 2 ^ nat e * of_int m"
      by (intro mult_mono) auto
    moreover have "(2 :: rat) ^ 1024 \<le> 2 ^ 1025" by simp
    ultimately have "(2 :: rat) ^ 1024 \<le> of_int m * pow2 e"
      using True by (simp add: pow2_def mult.commute)
    with True b show ?thesis by simp
  next
    case False
    then have n: "nat (1025 - e) - 1 = nat (1024 - e)" by simp
    show ?thesis
    proof (cases "0 \<le> e")
      case True
      with False have s: "1024 = nat (1024 - e) + nat e" by simp
      have "((2 :: rat) ^ 1024 \<le> of_int m * pow2 e)
          = ((2 :: rat) ^ nat (1024 - e) * 2 ^ nat e \<le> of_int m * 2 ^ nat e)"
        using True by (subst s) (simp add: pow2_def power_add)
      also have "\<dots> = ((2 :: rat) ^ nat (1024 - e) \<le> of_int m)"
        by simp
      also have "\<dots> = (rat_of_int (2 ^ nat (1024 - e)) \<le> of_int m)"
        by simp
      also have "\<dots> = (2 ^ nat (1024 - e) \<le> m)"
        by (simp only: of_int_le_iff)
      finally show ?thesis using False b n by simp
    next
      case neg: False
      then have s: "nat (1024 - e) = 1024 + nat (- e)" by simp
      have "((2 :: rat) ^ 1024 \<le> of_int m * pow2 e)
          = ((2 :: rat) ^ 1024 \<le> of_int m / 2 ^ nat (- e))"
        using neg by (simp add: pow2_def)
      also have "\<dots> = ((2 :: rat) ^ 1024 * 2 ^ nat (- e) \<le> of_int m)"
        by (simp add: pos_le_divide_eq)
      also have "\<dots> = (rat_of_int (2 ^ nat (1024 - e)) \<le> of_int m)"
        by (simp add: s power_add)
      also have "\<dots> = (2 ^ nat (1024 - e) \<le> m)"
        by (simp only: of_int_le_iff)
      finally show ?thesis using False b n by simp
    qed
  qed
qed


lemma round_double_code [code]:
  "round_double x =
     (if x = 0 then Fin 0
      else let a = \<bar>x\<bar>;
               e = max (floor_log2 a - 52) (- 1074);
               m = round_even (a / pow2 e);
               r = of_int m * pow2 e
           in if 0 < m \<and> 1024 < bitlen m + e then (if 0 < x then PosInf else NegInf)
              else Fin (if 0 < x then r else - r))"
proof -
  have "(2 ^ 1024 \<le> of_int m * pow2 e) = (0 < m \<and> 1024 < bitlen m + e)" for m e
  proof (cases "0 < m")
    case True
    then show ?thesis using overflow_iff [of m e] by simp
  next
    case False
    then have "rat_of_int m * pow2 e \<le> 0"
      using pow2_pos [of e] by (simp add: mult_le_0_iff)
    moreover have "(0 :: rat) < 2 ^ 1024" by simp
    ultimately have "\<not> (2 ^ 1024 \<le> of_int m * pow2 e)" by linarith
    with False show ?thesis by simp
  qed
  then show ?thesis by (simp add: round_double_def Let_def)
qed

lemma quotient_of_of_int: "quotient_of (of_int n) = (n, 1)"
  using quotient_of_int [of n] by (simp add: Rat.of_int_def)

lemma floor_log2_of_int_le:
  assumes "0 < n" and "n < 2 ^ w"
  shows "floor_log2 (of_int n) \<le> int w - 1"
proof -
  have "bitlen n \<le> int w" using assms(2) by (simp add: bitlen_le_iff_power)
  moreover have "bitlen 1 = 1" by (simp add: bitlen_alt_def)
  ultimately show ?thesis
    by (simp add: floor_log2_def Let_def quotient_of_of_int)
qed

text \<open>Where the exponent of the last place is not positive, an integer is a double.\<close>

lemma round_step_exact:
  assumes "e \<le> 0"
  shows "of_int (round_even (of_int k / pow2 e)) * pow2 e = (of_int k :: rat)"
proof -
  have "of_int k / pow2 e = rat_of_int (k * 2 ^ nat (- e))"
    using assms by (simp add: div_pow2_nonpos)
  then have "round_even (of_int k / pow2 e) = k * 2 ^ nat (- e)"
    by (simp only: round_even_of_int)
  then show ?thesis
    using mult_pow2_nonpos [OF assms, of "of_int k"] by simp
qed

lemma round_double_of_nat_exact:
  assumes "0 < k" and "k < 2 ^ 53"
  shows "round_double (of_int k) = Fin (of_int k)"
    and "round_double (- of_int k) = Fin (- of_int k)"
proof -
  define e where "e = max (floor_log2 (of_int k) - 52) (- 1074)"
  have "floor_log2 (of_int k) \<le> 52"
    using floor_log2_of_int_le [OF assms(1), of 53] assms(2) by simp
  then have e: "e \<le> 0" by (simp add: e_def)
  have r: "of_int (round_even (of_int k / pow2 e)) * pow2 e = (of_int k :: rat)"
    by (rule round_step_exact [OF e])
  have "rat_of_int k < rat_of_int (2 ^ 53)" using assms(2) by (simp only: of_int_less_iff)
  then have small: "\<not> (2 :: rat) ^ 1024 \<le> of_int k" by simp
  have a: "\<bar>rat_of_int k\<bar> = of_int k" using assms(1) by simp
  show "round_double (of_int k) = Fin (of_int k)"
    using assms(1) small r by (simp add: round_double_def Let_def a e_def [symmetric])
  show "round_double (- of_int k) = Fin (- of_int k)"
    using assms(1) small r by (simp add: round_double_def Let_def a e_def [symmetric])
qed

lemma round_double_2_53: "round_double (of_int (2 ^ 53)) = Fin (of_int (2 ^ 53))"
  by code_simp

lemma round_double_of_int:
  assumes "0 \<le> n" and "n \<le> 2 ^ 53"
  shows "round_double (of_int n) = Fin (of_int n)"
proof -
  consider "n = 0" | "0 < n" "n < 2 ^ 53" | "n = 2 ^ 53" using assms by linarith
  then show ?thesis
  proof cases
    case 1
    then show ?thesis by (simp add: round_double_def)
  next
    case 2
    then show ?thesis by (rule round_double_of_nat_exact)
  next
    case 3
    then show ?thesis using round_double_2_53 by simp
  qed
qed


lemma round_double_int_cases:
  "round_double (of_int n) \<in> range (\<lambda>k. Fin (of_int k)) \<union> {PosInf, NegInf}"
proof (cases "n = 0")
  case True
  then have "round_double (of_int n) = Fin (of_int 0)" by (simp add: round_double_def)
  then show ?thesis by blast
next
  case False
  define e where "e = max (floor_log2 \<bar>of_int n\<bar> - 52) (- 1074)"
  define r where "r = rat_of_int (round_even (\<bar>of_int n\<bar> / pow2 e)) * pow2 e"
  have "\<exists>k. r = of_int k"
  proof (cases "e \<le> 0")
    case True
    have "\<bar>rat_of_int n\<bar> = of_int \<bar>n\<bar>" by simp
    then have "r = of_int \<bar>n\<bar>"
      unfolding r_def using round_step_exact [OF True, of "\<bar>n\<bar>"] by simp
    then show ?thesis by blast
  next
    case False
    then have "r = of_int (round_even (\<bar>of_int n\<bar> / pow2 e) * 2 ^ nat e)"
      by (simp add: r_def pow2_def)
    then show ?thesis by blast
  qed
  then obtain k where k: "r = of_int k" by blast
  have "round_double (of_int n) =
      (if 2 ^ 1024 \<le> r then (if 0 < n then PosInf else NegInf)
       else Fin (if 0 < n then r else - r))"
    using False by (simp add: round_double_def Let_def e_def r_def)
  moreover have "Fin r \<in> range (\<lambda>k. Fin (of_int k))"
    unfolding k by (rule rangeI)
  moreover have "Fin (of_int (- k)) \<in> range (\<lambda>k. Fin (rat_of_int k))"
    by (rule rangeI)
  then have "Fin (- r) \<in> range (\<lambda>k. Fin (of_int k))"
    using k by simp
  ultimately show ?thesis by auto
qed

lemma js_add_int_cases:
  assumes "x \<in> range (\<lambda>k. Fin (of_int k)) \<union> {PosInf, NegInf}"
  shows "js_add x (Fin (of_int j)) \<in> range (\<lambda>k. Fin (of_int k)) \<union> {PosInf, NegInf}"
proof -
  consider k where "x = Fin (of_int k)" | "x = PosInf" | "x = NegInf"
    using assms by blast
  then show ?thesis
  proof cases
    case 1
    then have "js_add x (Fin (of_int j)) = round_double (of_int (k + j))" by simp
    then show ?thesis using round_double_int_cases [of "k + j"] by simp
  next
    case 2
    then show ?thesis by simp
  next
    case 3
    then show ?thesis by simp
  qed
qed

lemma replayV_cases:
  "replayV chainId recid \<in> range (\<lambda>k. Fin (of_int k)) \<union> {PosInf, NegInf}"
proof -
  have "js_mul (Fin (of_int chainId)) (Fin 2) = round_double (of_int (chainId * 2))" by simp
  then have "js_mul (Fin (of_int chainId)) (Fin 2) \<in> range (\<lambda>k. Fin (of_int k)) \<union> {PosInf, NegInf}"
    using round_double_int_cases [of "chainId * 2"] by simp
  then have "js_add (js_mul (Fin (of_int chainId)) (Fin 2)) (Fin (of_int 35))
      \<in> range (\<lambda>k. Fin (of_int k)) \<union> {PosInf, NegInf}"
    by (rule js_add_int_cases)
  then have "js_add (js_add (js_mul (Fin (of_int chainId)) (Fin 2)) (Fin (of_int 35))) (Fin (of_int recid))
      \<in> range (\<lambda>k. Fin (of_int k)) \<union> {PosInf, NegInf}"
    by (rule js_add_int_cases)
  then show ?thesis by (simp add: replayV_def)
qed

lemma replayV_integer: "replayV chainId recid = Fin q \<Longrightarrow> of_int \<lfloor>q\<rfloor> = q"
  using replayV_cases [of chainId recid] by auto

lemma replayV_exact:
  assumes "0 \<le> chainId" and "chainId * 2 + 36 \<le> 2 ^ 53" and "recid = 0 \<or> recid = 1"
  shows "replayV chainId recid = Fin (of_int (chainId * 2 + 35 + recid))"
proof -
  have 1: "js_mul (Fin (of_int chainId)) (Fin 2) = Fin (of_int (chainId * 2))"
    using round_double_of_int [of "chainId * 2"] assms by simp
  have "js_add (Fin (of_int (chainId * 2))) (Fin 35) = round_double (of_int (chainId * 2 + 35))"
    by simp
  also have "\<dots> = Fin (of_int (chainId * 2 + 35))"
    using assms by (intro round_double_of_int) auto
  finally have 2: "js_add (Fin (of_int (chainId * 2))) (Fin 35) = Fin (of_int (chainId * 2 + 35))" .
  have "js_add (Fin (of_int (chainId * 2 + 35))) (Fin (of_int recid))
      = round_double (of_int (chainId * 2 + 35 + recid))"
    by simp
  also have "\<dots> = Fin (of_int (chainId * 2 + 35 + recid))"
    using assms by (intro round_double_of_int) auto
  finally show ?thesis by (simp only: replayV_def 1 2)
qed


section \<open>The replay-protected value\<close>

text \<open>
  C2, as amended. For a chain id from 0 with \<open>2 * chainId + 36 \<le> 2\<^sup>5\<^sup>3\<close> and a recovery id
  0 or 1, the value \<open>v\<close> the signer computes is \<open>chainId * 2 + 35 + recid\<close>, the seventh
  signed field is made from it, and the chain id is recovered from it: it is
  \<open>(v - 35) div 2\<close>, and no other chain id in the range gives the same \<open>v\<close>.
\<close>

theorem replayV_eip155:
  assumes "0 \<le> chainId" and "chainId * 2 + 36 \<le> 2 ^ 53" and "recid \<in> {0, 1}"
  shows "replayV chainId recid = Fin (of_int (chainId * 2 + 35 + recid))
    \<and> signed_fields nonce gasPrice gasLimit to val data chainId signature recid ! 6 =
        hexToUint8Array (toString16 (chainId * 2 + 35 + recid))
    \<and> (chainId * 2 + 35 + recid - 35) div 2 = chainId
    \<and> (\<forall>chainId' recid'. 0 \<le> chainId' \<and> chainId' * 2 + 36 \<le> 2 ^ 53 \<and> recid' \<in> {0, 1}
          \<and> replayV chainId' recid' = replayV chainId recid \<longrightarrow> chainId' = chainId)"
proof -
  have v: "replayV chainId recid = Fin (of_int (chainId * 2 + 35 + recid))"
    using assms by (intro replayV_exact) auto
  have f: "signed_fields nonce gasPrice gasLimit to val data chainId signature recid ! 6 =
        hexToUint8Array (toString16 (chainId * 2 + 35 + recid))"
  proof -
    have "num_toString16 (replayV chainId recid) = toString16 (chainId * 2 + 35 + recid)"
      by (simp only: v num_toString16_def jsnum.case floor_of_int)
    moreover have "signed_fields nonce gasPrice gasLimit to val data chainId signature recid ! 6 =
        hexToUint8Array (num_toString16 (replayV chainId recid))"
      by (simp add: signed_fields_def Let_def)
    ultimately show ?thesis by simp
  qed
  have d: "(chainId * 2 + 35 + recid - 35) div 2 = chainId"
    using assms(3) by auto
  have "chainId' = chainId"
    if "0 \<le> chainId'" "chainId' * 2 + 36 \<le> 2 ^ 53" "recid' \<in> {0, 1}"
      "replayV chainId' recid' = replayV chainId recid" for chainId' recid'
  proof -
    have "replayV chainId' recid' = Fin (of_int (chainId' * 2 + 35 + recid'))"
      using that by (intro replayV_exact) auto
    with that(4) v have "rat_of_int (chainId' * 2 + 35 + recid') = of_int (chainId * 2 + 35 + recid)"
      by simp
    then have "chainId' * 2 + 35 + recid' = chainId * 2 + 35 + recid"
      by (simp only: of_int_eq_iff)
    with that(3) assms(3) show ?thesis by auto
  qed
  with v f d show ?thesis by blast
qed

theorem replayV_eip155_witness:
  "(0 :: int) \<le> 1 \<and> (1 :: int) * 2 + 36 \<le> 2 ^ 53 \<and> (1 :: int) \<in> {0, 1}
   \<and> replayV 1 1 = Fin 38
   \<and> signed_fields 0 1000000000 21000 ''0x8ba1f109551bD432803012645Ac136ddd64DBA72''
        10000000000000000 [] 1 (replicate 64 7) 1 ! 6 = [38]"
proof -
  have h: "(0 :: int) \<le> 1" "(1 :: int) * 2 + 36 \<le> 2 ^ 53" "(1 :: int) \<in> {0, 1}" by simp_all
  have e: "hexToUint8Array (toString16 38) = [38]" by code_simp
  from replayV_eip155 [OF h, of 0 1000000000 21000 "''0x8ba1f109551bD432803012645Ac136ddd64DBA72''"
      10000000000000000 "[]" "replicate 64 7"] h e
  show ?thesis by simp
qed


text \<open>
  C2, as stated, fails from \<open>chainId = 2\<^sup>5\<^sup>2 - 17\<close> on: \<open>(2\<^sup>5\<^sup>2 - 17) * 2 + 35\<close> is
  \<open>2\<^sup>5\<^sup>3 + 1\<close>, which is no double, and the sum is rounded to \<open>2\<^sup>5\<^sup>3\<close>. The same \<open>v\<close> comes
  from the chain id \<open>2\<^sup>5\<^sup>2 - 18\<close> with the recovery id 1.
\<close>

theorem replayV_large_chainId:
  "replayV 4503599627370479 0 \<noteq> Fin (of_int (4503599627370479 * 2 + 35 + 0))
   \<and> replayV 4503599627370479 0 = replayV 4503599627370478 1"
  by code_simp

section \<open>The signed list\<close>

lemma bytes_of_v_37: "hexToUint8Array (toString16 37) = [37]"
  by code_simp

text \<open>
  C8, as amended. Every signed list has nine fields: the first six fields of the unsigned
  list (nonce, gas price, gas limit, recipient, value, data), then the field of \<open>v\<close>, then
  \<open>r\<close> and \<open>s\<close>; the chain id is no field of it. For a signature of 64 bytes, \<open>r\<close> and \<open>s\<close>
  are 32 bytes each and are the two halves of the signature, unchanged.
\<close>

theorem signed_fields_layout:
  "signed_fields nonce gasPrice gasLimit to val data chainId signature recid =
      take 6 (encodeTx nonce gasPrice gasLimit to val data chainId)
      @ [hexToUint8Array (num_toString16 (replayV chainId recid)),
         take 32 signature, take 32 (drop 32 signature)]
   \<and> length (signed_fields nonce gasPrice gasLimit to val data chainId signature recid) = 9
   \<and> (length signature = 64 \<longrightarrow>
        length (signed_fields nonce gasPrice gasLimit to val data chainId signature recid ! 7) = 32
        \<and> length (signed_fields nonce gasPrice gasLimit to val data chainId signature recid ! 8) = 32
        \<and> signed_fields nonce gasPrice gasLimit to val data chainId signature recid ! 7
           @ signed_fields nonce gasPrice gasLimit to val data chainId signature recid ! 8
           = signature)"
proof -
  have "take 32 signature @ take 32 (drop 32 signature) = signature"
    if "length signature = 64"
  proof -
    from that have "take 32 (drop 32 signature) = drop 32 signature" by simp
    then show ?thesis by simp
  qed
  then show ?thesis
    by (simp add: signed_fields_def encodeTx_def Let_def)
qed

theorem signed_fields_layout_witness:
  "length (replicate 64 (0 :: 8 word)) = 64
   \<and> signed_fields 0 1000000000 21000 ''0x8ba1f109551bD432803012645Ac136ddd64DBA72''
        10000000000000000 [] 1 (replicate 64 0) 0
      = [[], [59, 154, 202, 0], [82, 8],
         [139, 161, 241, 9, 85, 27, 212, 50, 128, 48, 18, 100, 90, 193, 54, 221, 214, 77, 186, 114],
         [35, 134, 242, 111, 193, 0, 0], [], [37], replicate 32 0, replicate 32 0]
   \<and> signed_fields 0 1000000000 21000 ''0x8ba1f109551bD432803012645Ac136ddd64DBA72''
        10000000000000000 [] 1 (replicate 64 0) 0 ! 7
      @ signed_fields 0 1000000000 21000 ''0x8ba1f109551bD432803012645Ac136ddd64DBA72''
        10000000000000000 [] 1 (replicate 64 0) 0 ! 8
      = replicate 64 0"
proof -
  have h: "length (replicate 64 (0 :: 8 word)) = 64" by simp
  have u: "take 6 (encodeTx 0 1000000000 21000 ''0x8ba1f109551bD432803012645Ac136ddd64DBA72''
        10000000000000000 [] 1)
      = [[], [59, 154, 202, 0], [82, 8],
         [139, 161, 241, 9, 85, 27, 212, 50, 128, 48, 18, 100, 90, 193, 54, 221, 214, 77, 186, 114],
         [35, 134, 242, 111, 193, 0, 0], []]"
    by (simp add: encodeTx_def bytes_of_gasPrice bytes_of_gasLimit bytes_of_to bytes_of_value)
  have "replayV 1 0 = Fin (of_int (1 * 2 + 35 + 0))"
    by (rule replayV_exact) simp_all
  then have "num_toString16 (replayV 1 0) = toString16 37"
    by (simp add: num_toString16_def)
  then have v: "hexToUint8Array (num_toString16 (replayV 1 0)) = [37]"
    by (simp only: bytes_of_v_37)
  have t: "take 32 (replicate 64 (0 :: 8 word)) = replicate 32 0"
    "take 32 (drop 32 (replicate 64 (0 :: 8 word))) = replicate 32 0"
    by simp_all
  note l = signed_fields_layout [of 0 1000000000 21000
      "''0x8ba1f109551bD432803012645Ac136ddd64DBA72''" 10000000000000000 "[]" 1
      "replicate 64 0" 0]
  from l have e: "signed_fields 0 1000000000 21000 ''0x8ba1f109551bD432803012645Ac136ddd64DBA72''
        10000000000000000 [] 1 (replicate 64 0) 0
      = [[], [59, 154, 202, 0], [82, 8],
         [139, 161, 241, 9, 85, 27, 212, 50, 128, 48, 18, 100, 90, 193, 54, 221, 214, 77, 186, 114],
         [35, 134, 242, 111, 193, 0, 0], [], [37], replicate 32 0, replicate 32 0]"
    by (simp only: u v t append.simps)
  from l h have "signed_fields 0 1000000000 21000 ''0x8ba1f109551bD432803012645Ac136ddd64DBA72''
        10000000000000000 [] 1 (replicate 64 0) 0 ! 7
      @ signed_fields 0 1000000000 21000 ''0x8ba1f109551bD432803012645Ac136ddd64DBA72''
        10000000000000000 [] 1 (replicate 64 0) 0 ! 8
      = replicate 64 0"
    by blast
  with h e show ?thesis by blast
qed

text \<open>
  C8, as stated, fails at the chain id 137: the signed list is not the seven unsigned
  fields followed by \<open>v\<close>, \<open>r\<close> and \<open>s\<close>, it has nine fields; and \<open>v = 309\<close>, of the digits
  \<^verbatim>\<open>135\<close>, is held as the bytes \<^verbatim>\<open>13 05\<close> where its bytes are \<^verbatim>\<open>01 35\<close>.
\<close>

theorem signed_fields_chainId_137:
  "signed_fields 0 1000000000 21000 ''0x8ba1f109551bD432803012645Ac136ddd64DBA72''
       10000000000000000 [] 137 (replicate 64 7) 0
     \<noteq> take 7 (encodeTx 0 1000000000 21000 ''0x8ba1f109551bD432803012645Ac136ddd64DBA72''
           10000000000000000 [] 137)
         @ [min_be_bytes 309, replicate 32 7, replicate 32 7]
   \<and> length (signed_fields 0 1000000000 21000 ''0x8ba1f109551bD432803012645Ac136ddd64DBA72''
       10000000000000000 [] 137 (replicate 64 7) 0) = 9
   \<and> signed_fields 0 1000000000 21000 ''0x8ba1f109551bD432803012645Ac136ddd64DBA72''
       10000000000000000 [] 137 (replicate 64 7) 0 ! 6 = [19, 5]
   \<and> min_be_bytes 309 = [1, 53]"
  proof -
  have "replayV 137 0 = Fin (of_int (137 * 2 + 35 + 0))"
    by (rule replayV_exact) simp_all
  then have "num_toString16 (replayV 137 0) = toString16 309"
    by (simp add: num_toString16_def)
  then have v: "hexToUint8Array (num_toString16 (replayV 137 0)) = [19, 5]"
    by (simp only: bytes_of_v_309)
  have l: "length (signed_fields 0 1000000000 21000 ''0x8ba1f109551bD432803012645Ac136ddd64DBA72''
       10000000000000000 [] 137 (replicate 64 7) 0) = 9"
    by (simp add: signed_fields_def Let_def)
  have "length (take 7 (encodeTx 0 1000000000 21000 ''0x8ba1f109551bD432803012645Ac136ddd64DBA72''
           10000000000000000 [] 137)
         @ [min_be_bytes 309, replicate 32 7, replicate 32 7]) = 10"
    by (simp add: encodeTx_def)
  with l have "length (signed_fields 0 1000000000 21000
       ''0x8ba1f109551bD432803012645Ac136ddd64DBA72'' 10000000000000000 [] 137 (replicate 64 7) 0)
     \<noteq> length (take 7 (encodeTx 0 1000000000 21000 ''0x8ba1f109551bD432803012645Ac136ddd64DBA72''
           10000000000000000 [] 137)
         @ [min_be_bytes 309, replicate 32 7, replicate 32 7])"
    by simp
  then have n: "signed_fields 0 1000000000 21000 ''0x8ba1f109551bD432803012645Ac136ddd64DBA72''
       10000000000000000 [] 137 (replicate 64 7) 0
     \<noteq> take 7 (encodeTx 0 1000000000 21000 ''0x8ba1f109551bD432803012645Ac136ddd64DBA72''
           10000000000000000 [] 137)
         @ [min_be_bytes 309, replicate 32 7, replicate 32 7]"
    by (rule contrapos_nn) (simp only:)
  have f: "signed_fields 0 1000000000 21000 ''0x8ba1f109551bD432803012645Ac136ddd64DBA72''
       10000000000000000 [] 137 (replicate 64 7) 0 ! 6 = [19, 5]"
    by (simp add: signed_fields_def Let_def v)
  from n l f min_be_bytes_309 show ?thesis by blast
qed

section \<open>Signing is a function of its arguments\<close>

lemma signTransaction_deterministic:
  assumes "deterministic S"
    and "signTransaction P S nonce gasPrice gasLimit to val data chainId privateKey out1"
    and "signTransaction P S nonce gasPrice gasLimit to val data chainId privateKey out2"
  shows "out1 = out2"
  using assms(2)
proof cases
  case (signs signature recid)
  note a = signs
  from assms(3) show ?thesis
  proof cases
    case (signs signature' recid')
    with a assms(1) have "Inr (signature, recid) = (Inr (signature', recid') :: error + bytes \<times> int)"
      unfolding deterministic_def by blast
    with a signs show ?thesis by simp
  next
    case (sign_throws e)
    with a assms(1) have "Inr (signature, recid) = (Inl e :: error + bytes \<times> int)"
      unfolding deterministic_def by blast
    then show ?thesis by simp
  qed
next
  case (sign_throws e)
  note a = sign_throws
  from assms(3) show ?thesis
  proof cases
    case (signs signature' recid')
    with a assms(1) have "Inl e = (Inr (signature', recid') :: error + bytes \<times> int)"
      unfolding deterministic_def by blast
    then show ?thesis by simp
  next
    case (sign_throws e')
    with a assms(1) have "Inl e = (Inl e' :: error + bytes \<times> int)"
      unfolding deterministic_def by blast
    with a sign_throws show ?thesis by simp
  qed
qed


text \<open>
  C3. With a deterministic signer, two runs of the script from its call of
  \<open>signTransaction\<close> on the same nonce, gas price, gas limit, recipient, value, data, chain
  id and private key end in the same outcome: the same signed bytes and the same
  transaction hash, or the same exception.
\<close>

theorem sign_and_hash_deterministic:
  assumes "deterministic S"
    and "sign_and_hash P S nonce gasPrice gasLimit to val data chainId privateKey out1"
    and "sign_and_hash P S nonce gasPrice gasLimit to val data chainId privateKey out2"
  shows "out1 = out2"
  using assms(2)
proof cases
  case (hashed raw)
  note a = hashed
  from assms(3) show ?thesis
  proof cases
    case (hashed raw')
    with a signTransaction_deterministic [OF assms(1)] have "Inr raw = (Inr raw' :: error + bytes)"
      by blast
    with a hashed show ?thesis by simp
  next
    case (not_signed e)
    with a signTransaction_deterministic [OF assms(1)] have "Inr raw = (Inl e :: error + bytes)"
      by blast
    then show ?thesis by simp
  qed
next
  case (not_signed e)
  note a = not_signed
  from assms(3) show ?thesis
  proof cases
    case (hashed raw')
    with a signTransaction_deterministic [OF assms(1)] have "Inl e = (Inr raw' :: error + bytes)"
      by blast
    then show ?thesis by simp
  next
    case (not_signed e')
    with a signTransaction_deterministic [OF assms(1)] have "Inl e = (Inl e' :: error + bytes)"
      by blast
    with a not_signed show ?thesis by simp
  qed
qed

lemma deterministic_demo_signer: "deterministic demo_signer"
  by (simp add: deterministic_def demo_signer_def)

theorem sign_and_hash_deterministic_witness:
  "deterministic demo_signer
   \<and> {out. sign_and_hash demo_prims demo_signer 0 1000000000 21000
            ''0x8ba1f109551bD432803012645Ac136ddd64DBA72'' 10000000000000000 [] 1
            (replicate 32 1) out}
     = {Inr (rlp_encode demo_prims
               (signed_fields 0 1000000000 21000
                  ''0x8ba1f109551bD432803012645Ac136ddd64DBA72'' 10000000000000000 [] 1
                  (replicate 64 7) 0),
             keccak256 demo_prims
               (rlp_encode demo_prims
                  (signed_fields 0 1000000000 21000
                     ''0x8ba1f109551bD432803012645Ac136ddd64DBA72'' 10000000000000000 [] 1
                     (replicate 64 7) 0)))}"
proof -
  let ?to = "''0x8ba1f109551bD432803012645Ac136ddd64DBA72''"
  let ?raw = "rlp_encode demo_prims
     (signed_fields 0 1000000000 21000 ?to 10000000000000000 [] 1 (replicate 64 7) 0)"
  have d: "deterministic demo_signer" by (rule deterministic_demo_signer)
  have "demo_signer (msgHash demo_prims 0 1000000000 21000 ?to 10000000000000000 [] 1)
          (replicate 32 1) (Inr (replicate 64 7, 0))"
    by (simp add: demo_signer_def)
  then have "signTransaction demo_prims demo_signer 0 1000000000 21000 ?to 10000000000000000 [] 1
          (replicate 32 1) (Inr ?raw)"
    by (rule signTransaction.signs)
  then have r: "sign_and_hash demo_prims demo_signer 0 1000000000 21000 ?to 10000000000000000 [] 1
          (replicate 32 1) (Inr (?raw, keccak256 demo_prims ?raw))"
    by (rule sign_and_hash.hashed)
  have "out = Inr (?raw, keccak256 demo_prims ?raw)"
    if "sign_and_hash demo_prims demo_signer 0 1000000000 21000 ?to 10000000000000000 [] 1
          (replicate 32 1) out" for out
    using sign_and_hash_deterministic [OF d that r] .
  with r d show ?thesis by blast
qed


section \<open>The recipient is checked before signing\<close>

lemma isHexAddress_val_iff:
  "isHexAddress_val v =
     (\<exists>addr. v = JStr addr \<and> hex_address_re addr \<and> length (buffer_from_hex (drop 2 addr)) = 20)"
  by (cases v) (auto simp: isHexAddress_def)

lemma parseValue_not_hex_address: "\<not> isHexAddress s \<Longrightarrow> \<not> isHexAddress_val (parseValue s)"
  by (simp add: parseValue_def)

lemma parseValue_12345: "parseValue ''12345'' = JNum (Fin 12345)"
  by code_simp

text \<open>
  C9. When the recipient \<^verbatim>\<open>argv.to\<close> is not a string that matches \<^verbatim>\<open>^0x[0-9a-fA-F]{40}$\<close>
  and decodes to 20 bytes (a string that fails the pattern or the length, or a number, a
  boolean or no value at all, which the argument parser can store), the script does not
  reach its call of \<open>signTransaction\<close>.
\<close>

theorem invalid_to_never_signed:
  assumes "\<not> isHexAddress_val (lookup argv ''to'')"
  shows "\<not> calls_sign (wallet_main P argv)"
  using assms by (simp add: wallet_main_def split: sum.splits prod.splits)

theorem invalid_to_never_signed_witness:
  "\<not> isHexAddress_val (lookup (demo_argv(''to'' \<mapsto> parseValue ''12345'')) ''to'')
   \<and> \<not> calls_sign (wallet_main demo_prims (demo_argv(''to'' \<mapsto> parseValue ''12345'')))"
proof -
  have "\<not> isHexAddress ''12345''"
    by (simp add: isHexAddress_def hex_address_re_def)
  then have "\<not> isHexAddress_val (parseValue ''12345'')"
    by (rule parseValue_not_hex_address)
  then have h: "\<not> isHexAddress_val (lookup (demo_argv(''to'' \<mapsto> parseValue ''12345'')) ''to'')"
    by (simp add: lookup_def)
  from invalid_to_never_signed [OF h, of demo_prims] h show ?thesis by simp
qed

text \<open>
  The same for an argument as it is typed: whatever \<open>parseValue\<close> makes of a recipient that
  fails the pattern or the length, and for a recipient string of the claim's two cases.
\<close>

lemma invalid_argument_never_signed:
  assumes "\<not> hex_address_re s \<or> length (buffer_from_hex (drop 2 s)) \<noteq> 20"
    and "argv ''to'' = Some (parseValue s) \<or> argv ''to'' = Some (JStr s)"
  shows "\<not> calls_sign (wallet_main P argv)"
proof -
  from assms(1) have n: "\<not> isHexAddress s" by (auto simp: isHexAddress_def)
  then have "\<not> isHexAddress_val (parseValue s)" by (rule parseValue_not_hex_address)
  with n assms(2) have "\<not> isHexAddress_val (lookup argv ''to'')"
    by (auto simp: lookup_def)
  then show ?thesis
    by (simp add: wallet_main_def split: sum.splits prod.splits)
qed

text \<open>
  With the recipient of 40 digits the same arguments reach the call; with one digit less,
  and with the recipient \<^verbatim>\<open>12345\<close>, the script exits with status 1.
\<close>

lemma demo_argv_signs:
  "wallet_main demo_prims demo_argv =
     CallsSignTransaction (Fin 0) 1000000000 21000
       (JStr ''0x8ba1f109551bD432803012645Ac136ddd64DBA72'') 10000000000000000 [] (Fin 1)
       (replicate 32 1)"
  by code_simp

lemma demo_invalid_exit: "wallet_main demo_prims
          (demo_argv(''to'' \<mapsto> JStr ''0x8ba1f109551bD432803012645Ac136ddd64DBA7'')) = Exit 1"
  by code_simp

lemma demo_number_exit:
  "wallet_main demo_prims (demo_argv(''to'' \<mapsto> parseValue ''12345'')) = Exit 1"
  by code_simp

section \<open>The value in the smallest unit\<close>

text \<open>
  C7. The value is to be the decimal amount times \<open>10\<^sup>1\<^sup>8\<close>, truncated, without loss. For
  the argument \<^verbatim>\<open>--value 0.07\<close> the script computes 70000000000000008, where the exact
  product is 70000000000000000: the amount is parsed to the nearest double and the product
  is rounded to a double again. The script calls \<open>signTransaction\<close> with the value it
  computed (lemma \<open>wallet_main_value_0_07\<close>).
\<close>

theorem wei_value_0_07:
  "wei_value (parseValue ''0.07'') = Inr 70000000000000008
   \<and> wei_exact (decimal_exact ''0.07'') = 70000000000000000"
  by code_simp

lemma wallet_main_value_0_07:
  "wallet_main demo_prims (demo_argv(''value'' \<mapsto> parseValue ''0.07'')) =
     CallsSignTransaction (Fin 0) 1000000000 21000
       (JStr ''0x8ba1f109551bD432803012645Ac136ddd64DBA72'') 70000000000000008 [] (Fin 1)
       (replicate 32 1)"
  by code_simp

end
